theory Spec2Isabelle
  imports Main
begin

section \<open>Errors, panics and results\<close>

text \<open>
  The error sentinels of the package, the errors of its collaborators (transport,
  request context, argument parsing), and the run-time panics of the Go code.
  A Go call returns \<open>nil\<close>, returns an error, or panics: \<open>ret\<close> has one
  constructor for each.
\<close>

datatype panic = NilPointerDereference | IndexOutOfRange | SliceBoundsOutOfRange

datatype error =
    ErrServerClosed
  | ErrHijacked
  | ErrNilArgs
  | ErrNegativeStreamCount
  | ErrWriteStreamCalledAfterWrite
  | ErrWriteStreamCalledTooManyTimes
  | ErrWriteCalledTooManyTimes
  | ErrWriteCalledNotEnoughTimes
  | ErrNotHijackable
  | ErrNotPipeline
  | IOError
  | DeadlineExceeded
  | UnsupportedOutputType
  | ParseError
  | RecoveredPanic panic

datatype ret = Success | Failure error | Panicked panic

section \<open>The connection\<close>

text \<open>
  What the server writes is a sequence of RESP frames: the header of an array of \<open>n\<close>
  elements, or one value. Values are strings (\<open>"OK"\<close>, \<open>"QUEUED"\<close>, \<open>"PONG"\<close>,
  whatever the handler writes).
\<close>

datatype frame = ArrayBegin int | Value string

datatype ConnState = StateNew | StateActive | StateIdle | StateHijacked | StateClosed

text \<open>
  Modelled from the spec: the type \<open>Conn\<close> and its methods (conn.go is not part of the
  sources at hand). The spec (4.C) gives a connection a write buffer over a byte stream,
  per-operation deadlines and a state tag. \<open>wbuffer\<close> holds the frames encoded and not
  yet flushed, \<open>wire\<close> the frames sent to the client, \<open>broken\<close> says that the byte
  stream fails every write, \<open>wtimeout\<close> is the last write timeout set.
\<close>

record Conn =
  wbuffer :: "frame list"
  wire :: "frame list"
  broken :: bool
  state :: ConnState
  wtimeout :: int

definition setWriteTimeout :: "Conn \<Rightarrow> int \<Rightarrow> Conn" where
  "setWriteTimeout c t = c\<lparr>wtimeout := t\<rparr>"

text \<open>
  Modelled from the spec: \<open>Conn.setState\<close>, called through a pointer. On a nil pointer
  it crashes (spec, design notes on the hijack path); otherwise it sets the state tag.
\<close>

definition setState :: "Conn option \<Rightarrow> ConnState \<Rightarrow> panic + Conn" where
  "setState p s = (case p of None \<Rightarrow> Inl NilPointerDereference | Some c \<Rightarrow> Inr (c\<lparr>state := s\<rparr>))"

text \<open>
  Modelled from the spec: the RESP encoders (external codec, spec 6) append one frame to
  the write buffer; \<open>wbuffer.Flush\<close> sends the buffer. Both fail on a broken stream.
\<close>

definition Encode :: "Conn \<Rightarrow> frame \<Rightarrow> ret \<times> Conn" where
  "Encode c f = (if broken c then (Failure IOError, c) else (Success, c\<lparr>wbuffer := wbuffer c @ [f]\<rparr>))"

definition wbuffer_Flush :: "Conn \<Rightarrow> ret \<times> Conn" where
  "wbuffer_Flush c =
     (if broken c then (Failure IOError, c)
      else (Success, c\<lparr>wire := wire c @ wbuffer c, wbuffer := []\<rparr>))"

text \<open>
  Modelled from the spec: \<open>Conn.WriteArgs\<close> encodes the values of an argument list and
  flushes them to the client.
\<close>

definition WriteArgs :: "Conn \<Rightarrow> string list \<Rightarrow> ret \<times> Conn" where
  "WriteArgs c vs =
     (if broken c then (Failure IOError, c)
      else (Success, c\<lparr>wire := wire c @ wbuffer c @ map Value vs, wbuffer := []\<rparr>))"

section \<open>The response writer\<close>

datatype responseWriterType = notype | oneshot | stream

text \<open>
  The struct \<open>responseWriter\<close>. \<open>conn\<close> is a pointer: \<open>None\<close> is nil. The two encoder
  fields are bound to the connection's write buffer and carry no state of their own
  here.
\<close>

record responseWriter =
  conn :: "Conn option"
  wtype :: responseWriterType
  remain :: int
  timeout :: int

definition waitReadyWrite :: "Conn \<Rightarrow> int \<Rightarrow> Conn" where
  "waitReadyWrite c tmo = (if tmo \<noteq> 0 then setWriteTimeout c tmo else c)"

definition WriteStream :: "responseWriter \<Rightarrow> int \<Rightarrow> ret \<times> responseWriter" where
  "WriteStream res n =
     (case conn res of
        None \<Rightarrow> (Failure ErrHijacked, res)
      | Some c \<Rightarrow>
          if n < 0 then (Failure ErrNegativeStreamCount, res)
          else (case wtype res of
              oneshot \<Rightarrow> (Failure ErrWriteStreamCalledAfterWrite, res)
            | stream \<Rightarrow> (Failure ErrWriteStreamCalledTooManyTimes, res)
            | notype \<Rightarrow>
                (let (r, c') = Encode (waitReadyWrite c (timeout res)) (ArrayBegin n)
                 in (r, res\<lparr>conn := Some c', wtype := stream, remain := n\<rparr>))))"

definition Write :: "responseWriter \<Rightarrow> string \<Rightarrow> ret \<times> responseWriter" where
  "Write res val =
     (case conn res of
        None \<Rightarrow> (Failure ErrHijacked, res)
      | Some c \<Rightarrow>
          (let res1 = (if wtype res = notype
                       then res\<lparr>conn := Some (waitReadyWrite c (timeout res)),
                                wtype := oneshot, remain := 1\<rparr>
                       else res)
           in if remain res1 = 0 then (Failure ErrWriteCalledTooManyTimes, res1)
              else (case conn res1 of
                  None \<Rightarrow> (Panicked NilPointerDereference, res1)
                | Some c1 \<Rightarrow>
                    (let (r, c') = Encode c1 (Value val)
                     in (r, res1\<lparr>conn := Some c', remain := remain res1 - 1\<rparr>)))))"

definition Flush :: "responseWriter \<Rightarrow> ret \<times> responseWriter" where
  "Flush res =
     (case conn res of
        None \<Rightarrow> (Failure ErrHijacked, res)
      | Some c \<Rightarrow>
          (case (if wtype res = notype then Write res ''OK'' else (Success, res)) of
             (Success, res1) \<Rightarrow>
               if remain res1 \<noteq> 0 then (Failure ErrWriteCalledNotEnoughTimes, res1)
               else (case conn res1 of
                   None \<Rightarrow> (Panicked NilPointerDereference, res1)
                 | Some c1 \<Rightarrow> (let (r, c') = wbuffer_Flush c1 in (r, res1\<lparr>conn := Some c'\<rparr>)))
           | (r, res1) \<Rightarrow> (r, res1)))"

text \<open>
  \<open>Hijack\<close> returns the connection and its buffers (here: the connection value) next to
  the error. The source assigns nil to \<open>res.conn\<close> and then calls \<open>setState\<close> through
  \<open>res.conn\<close>: the model reads the field after the assignment, as the code does.
\<close>

definition Hijack :: "responseWriter \<Rightarrow> (ret \<times> Conn option) \<times> responseWriter" where
  "Hijack res =
     (case conn res of
        None \<Rightarrow> ((Failure ErrHijacked, None), res)
      | Some c \<Rightarrow>
          (let nc = c;
               res1 = res\<lparr>conn := None\<rparr>
           in case setState (conn res1) StateHijacked of
                Inl p \<Rightarrow> ((Panicked p, None), res1)
              | Inr c' \<Rightarrow> ((Success, Some nc), res1)))"

text \<open>The writer \<open>serveCommands\<close> builds for a request.\<close>

definition newResponseWriter :: "Conn \<Rightarrow> int \<Rightarrow> responseWriter" where
  "newResponseWriter c tmo = \<lparr>conn = Some c, wtype = notype, remain = 0, timeout = tmo\<rparr>"

section \<open>Handlers\<close>

text \<open>
  A handler receives the writer as a \<open>ResponseWriter\<close>, which it may also use as a
  \<open>Flusher\<close> and a \<open>Hijacker\<close>. What a handler does to the writer is the sequence of
  its calls.
\<close>

datatype call = WriteStreamCall int | WriteCall string | FlushCall | HijackCall

definition invoke :: "responseWriter \<Rightarrow> call \<Rightarrow> ret \<times> responseWriter" where
  "invoke res c =
     (case c of
        WriteStreamCall n \<Rightarrow> WriteStream res n
      | WriteCall v \<Rightarrow> Write res v
      | FlushCall \<Rightarrow> Flush res
      | HijackCall \<Rightarrow> (let ((r, nc), res') = Hijack res in (r, res')))"

text \<open>The writer after a sequence of calls, whatever they returned.\<close>

definition calls :: "responseWriter \<Rightarrow> call list \<Rightarrow> responseWriter" where
  "calls res cs = foldl (\<lambda>r c. snd (invoke r c)) res cs"

text \<open>The four errors that report a call sequence the contract forbids.\<close>

definition violation :: "ret \<Rightarrow> bool" where
  "violation r =
     (r = Failure ErrWriteCalledTooManyTimes \<or> r = Failure ErrWriteStreamCalledAfterWrite \<or>
      r = Failure ErrWriteStreamCalledTooManyTimes \<or> r = Failure ErrNegativeStreamCount)"

text \<open>
  In every writer reached from a new one, a writer of no type has no write remaining,
  and the count is never negative.
\<close>

definition consistent :: "responseWriter \<Rightarrow> bool" where
  "consistent res = (if wtype res = notype then remain res = 0 else 0 \<le> remain res)"

text \<open>A healthy connection with nothing buffered and nothing sent, for the examples.\<close>

definition conn0 :: Conn where
  "conn0 = \<lparr>wbuffer = [], wire = [], broken = False, state = StateActive, wtimeout = 0\<rparr>"

section \<open>Argument lists\<close>

text \<open>
  \<open>Args\<close> is an interface: a value of it is nil (\<open>None\<close>) or an object of some type
  \<open>'a\<close> with the three methods of that type. \<open>Next\<close> receives a destination pointer;
  what matters to the argument list is the kind of the pointed-to location
  (\<open>reflect.Kind\<close> after the pointers are followed). The value stored through the
  pointer is left out.
\<close>

datatype kind = KBool | KInt | KUint | KFloat | KString | KBytes | KSlice | KInterface | KOther

record 'a Args =
  Close :: "'a \<Rightarrow> error option \<times> 'a"
  Len :: "'a \<Rightarrow> int"
  Next :: "'a \<Rightarrow> kind \<Rightarrow> bool \<times> 'a"

text \<open>The loop of \<open>ParseArgs\<close>: one \<open>Next\<close> for each destination, until one fails.\<close>

fun nextEach :: "'a Args \<Rightarrow> 'a \<Rightarrow> kind list \<Rightarrow> 'a" where
  "nextEach I a [] = a"
| "nextEach I a (dst # dsts) =
     (case Next I a dst of (True, a') \<Rightarrow> nextEach I a' dsts | (False, a') \<Rightarrow> a')"

definition ParseArgs :: "'a Args \<Rightarrow> 'a option \<Rightarrow> kind list \<Rightarrow> ret \<times> 'a option" where
  "ParseArgs I args dsts =
     (if args = None \<and> length dsts \<noteq> 0 then (Failure ErrNilArgs, args)
      else (case args of
          None \<Rightarrow> (Panicked NilPointerDereference, None)
        | Some a \<Rightarrow>
            (case Close I (nextEach I a dsts) of
               (None, a') \<Rightarrow> (Success, Some a')
             | (Some e, a') \<Rightarrow> (Failure e, Some a'))))"

subsection \<open>byteArgs\<close>

text \<open>
  The parsers \<open>objutil.ParseInt\<close>, \<open>strconv.ParseUint\<close> and \<open>strconv.ParseFloat\<close>
  are libraries: the model takes them as parameters, each giving the error it
  returns on a byte string, if any.
\<close>

record parsers =
  ParseInt :: "string \<Rightarrow> error option"
  ParseUint :: "string \<Rightarrow> error option"
  ParseFloat :: "string \<Rightarrow> error option"

record byteArgs =
  args :: "string list"
  err :: "error option"

definition byteArgs_Close :: "byteArgs \<Rightarrow> error option \<times> byteArgs" where
  "byteArgs_Close a = (err a, a\<lparr>args := []\<rparr>)"

definition byteArgs_Len :: "byteArgs \<Rightarrow> int" where
  "byteArgs_Len a = int (length (args a))"

definition byteArgs_next :: "parsers \<Rightarrow> kind \<Rightarrow> string \<Rightarrow> error option" where
  "byteArgs_next P k a =
     (case k of
        KBool \<Rightarrow> ParseInt P a
      | KInt \<Rightarrow> ParseInt P a
      | KUint \<Rightarrow> ParseUint P a
      | KFloat \<Rightarrow> ParseFloat P a
      | KString \<Rightarrow> None
      | KBytes \<Rightarrow> None
      | KSlice \<Rightarrow> Some UnsupportedOutputType
      | KInterface \<Rightarrow> None
      | KOther \<Rightarrow> Some UnsupportedOutputType)"

definition byteArgs_Next :: "parsers \<Rightarrow> byteArgs \<Rightarrow> kind \<Rightarrow> bool \<times> byteArgs" where
  "byteArgs_Next P a dst =
     (case args a of
        [] \<Rightarrow> (False, a)
      | x # xs \<Rightarrow>
          if err a \<noteq> None then (False, a)
          else (let a' = a\<lparr>args := xs, err := byteArgs_next P dst x\<rparr> in (err a' = None, a')))"

definition byteArgs_Args :: "parsers \<Rightarrow> byteArgs Args" where
  "byteArgs_Args P = \<lparr>Close = byteArgs_Close, Len = byteArgs_Len, Next = byteArgs_Next P\<rparr>"

subsection \<open>argsList, multiArgs, argsError\<close>

text \<open>
  Of the stream decoder of an \<open>argsList\<close> (a library type) the model keeps what its
  \<open>Len\<close> method reports: the number of values left.
\<close>

record argsList =
  dec_Len :: int
  lerr :: "error option"

definition argsList_Len :: "argsList \<Rightarrow> int" where
  "argsList_Len a = (if lerr a \<noteq> None then 0 else dec_Len a)"

record 'a multiArgs =
  margs :: "'a list"
  argn :: int
  merr :: "error option"

text \<open>\<open>multiArgs.Len\<close> sums the \<open>Len\<close> of the lists it holds, through their interface.\<close>

definition multiArgs_Len :: "'a Args \<Rightarrow> 'a multiArgs \<Rightarrow> int" where
  "multiArgs_Len I m = (if merr m = None then sum_list (map (Len I) (margs m)) else 0)"

record argsError =
  aerr :: error

definition argsError_Len :: "argsError \<Rightarrow> int" where
  "argsError_Len a = 0"

section \<open>Commands and prepared responses\<close>

record command =
  Cmd :: string
  Args :: byteArgs

text \<open>
  Modelled from the spec: \<open>Command.ParseArgs\<close> on a string destination that holds
  \<open>"PONG"\<close> (command.go is not part of the sources at hand). By the spec (4.E) the reply
  to \<open>PING\<close> is \<open>"PONG"\<close> or the argument the user supplied: the first argument, when
  \<open>Next\<close> delivers one.
\<close>

definition pingMessage :: "command \<Rightarrow> string" where
  "pingMessage cmd =
     (case args (Args cmd) of
        [] \<Rightarrow> ''PONG''
      | a # rest \<Rightarrow> if err (Args cmd) \<noteq> None then ''PONG'' else a)"

text \<open>
  Modelled from the spec: \<open>Command.loadByteArgs\<close> (command.go) forces the arguments of
  a command into a byte vector (4.F); the commands of the model hold theirs in that
  form already.
\<close>

definition loadByteArgs :: "command \<Rightarrow> command" where
  "loadByteArgs cmd = cmd"

record preparedResponse =
  pr_index :: int
  pr_value :: string

record preparedResponseWriter =
  base :: responseWriter
  index :: int
  responses :: "preparedResponse list"

definition preparedResponseWriter_WriteStream ::
    "preparedResponseWriter \<Rightarrow> int \<Rightarrow> ret \<times> preparedResponseWriter" where
  "preparedResponseWriter_WriteStream res n = (Failure ErrWriteStreamCalledTooManyTimes, res)"

definition preparedResponseWriter_Write ::
    "preparedResponseWriter \<Rightarrow> string \<Rightarrow> ret \<times> preparedResponseWriter" where
  "preparedResponseWriter_Write res v =
     (let (r, res1) =
            (case responses res of
               [] \<Rightarrow> (Success, res)
             | p # ps \<Rightarrow>
                 if pr_index p = index res
                 then (case Write (base res) (pr_value p) of
                         (Success, b) \<Rightarrow> (Success, res\<lparr>base := b, responses := ps\<rparr>)
                       | (e, b) \<Rightarrow> (e, res\<lparr>base := b\<rparr>))
                 else (Success, res))
      in if r = Success
         then (let (r', b) = Write (base res1) v in (r', res1\<lparr>base := b, index := index res1 + 1\<rparr>))
         else (r, res1))"

definition preparedResponseWriter_Flush :: "preparedResponseWriter \<Rightarrow> ret \<times> preparedResponseWriter" where
  "preparedResponseWriter_Flush res = (let (r, b) = Flush (base res) in (r, res\<lparr>base := b\<rparr>))"

definition preparedResponseWriter_Hijack ::
    "preparedResponseWriter \<Rightarrow> (ret \<times> Conn option) \<times> preparedResponseWriter" where
  "preparedResponseWriter_Hijack res = (let (r, b) = Hijack (base res) in (r, res\<lparr>base := b\<rparr>))"

fun writeValues :: "responseWriter \<Rightarrow> preparedResponse list \<Rightarrow> ret \<times> responseWriter" where
  "writeValues b [] = (Success, b)"
| "writeValues b (r # rs) =
     (case Write b (pr_value r) of (Success, b') \<Rightarrow> writeValues b' rs | (e, b') \<Rightarrow> (e, b'))"

definition writeRemainingValues :: "preparedResponseWriter \<Rightarrow> ret \<times> preparedResponseWriter" where
  "writeRemainingValues res =
     (let (r, b) = writeValues (base res) (responses res) in (r, res\<lparr>base := b, responses := []\<rparr>))"

section \<open>Serving a request\<close>

text \<open>
  The \<open>ResponseWriter\<close> a handler receives is the request's \<open>responseWriter\<close> itself, or
  the \<open>preparedResponseWriter\<close> that wraps it. The wrapper's \<open>base\<close> points to the
  request's writer: after the handler has returned, the engine finds the state of its
  writer there.
\<close>

datatype writer = Direct responseWriter | Prepared preparedResponseWriter

definition writer_invoke :: "writer \<Rightarrow> call \<Rightarrow> ret \<times> writer" where
  "writer_invoke w c =
     (case w of
        Direct res \<Rightarrow> (let (r, res') = invoke res c in (r, Direct res'))
      | Prepared p \<Rightarrow>
          (case c of
             WriteStreamCall n \<Rightarrow> (let (r, p') = preparedResponseWriter_WriteStream p n in (r, Prepared p'))
           | WriteCall v \<Rightarrow> (let (r, p') = preparedResponseWriter_Write p v in (r, Prepared p'))
           | FlushCall \<Rightarrow> (let (r, p') = preparedResponseWriter_Flush p in (r, Prepared p'))
           | HijackCall \<Rightarrow> (let ((r, nc), p') = preparedResponseWriter_Hijack p in (r, Prepared p'))))"

definition baseOf :: "writer \<Rightarrow> responseWriter" where
  "baseOf w = (case w of Direct res \<Rightarrow> res | Prepared p \<Rightarrow> base p)"

text \<open>
  A handler is the list of calls it makes on the writer, given the commands of the
  request. \<open>ServeRedis\<close> makes them in order and records what each returned; a call
  that panics ends the handler.
\<close>

type_synonym handler = "command list \<Rightarrow> call list"

fun ServeRedis :: "call list \<Rightarrow> writer \<Rightarrow> ret list \<Rightarrow> panic option \<times> writer \<times> ret list" where
  "ServeRedis [] w log = (None, w, log)"
| "ServeRedis (c # cs) w log =
     (case writer_invoke w c of
        (Panicked p, w') \<Rightarrow> (Some p, w', log @ [Panicked p])
      | (r, w') \<Rightarrow> ServeRedis cs w' (log @ [r]))"

text \<open>\<open>serveRedis\<close> recovers a panic of the handler into an error.\<close>

definition serveRedis :: "handler \<Rightarrow> writer \<Rightarrow> command list \<Rightarrow> ret \<times> writer \<times> ret list" where
  "serveRedis h w cmds =
     (case ServeRedis (h cmds) w [] of
        (None, w', log) \<Rightarrow> (Success, w', log)
      | (Some p, w', log) \<Rightarrow> (Failure (RecoveredPanic p), w', log))"

definition addPreparedResponse ::
    "responseWriter \<Rightarrow> preparedResponseWriter option \<Rightarrow> int \<Rightarrow> string \<Rightarrow> preparedResponseWriter option" where
  "addPreparedResponse res preparedRes i v =
     (let p = (case preparedRes of
                 None \<Rightarrow> \<lparr>base = res, index = 0, responses = []\<rparr>
               | Some p \<Rightarrow> p)
      in Some (p\<lparr>responses := responses p @ [\<lparr>pr_index = i, pr_value = v\<rparr>]\<rparr>))"

text \<open>
  The first loop of \<open>serveRequest\<close>, over the commands as they were on entry: a \<open>PING\<close>
  becomes a prepared response, any other command is moved down to position \<open>i\<close>.
\<close>

fun stripPrepared ::
    "responseWriter \<Rightarrow> command list \<Rightarrow> command list \<times> nat \<times> preparedResponseWriter option \<Rightarrow>
     command list \<times> nat \<times> preparedResponseWriter option" where
  "stripPrepared res [] st = st"
| "stripPrepared res (cmd # rest) (cmds, i, preparedRes) =
     (if Cmd cmd = ''PING''
      then stripPrepared res rest (cmds, i, addPreparedResponse res preparedRes (int i) (pingMessage cmd))
      else stripPrepared res rest (cmds[i := cmd], Suc i, preparedRes))"

text \<open>
  \<open>serveRequest\<close> returns its error, the request's writer as it leaves it, and what
  the handler's calls returned. The call of \<open>WriteStream\<close> goes to \<open>w\<close>, which is the
  wrapper by then, with the length of \<open>req.Cmds\<close> before it is cut to \<open>i\<close>; its result
  is dropped.
\<close>

definition serveRequest :: "handler \<Rightarrow> responseWriter \<Rightarrow> command list \<Rightarrow> ret \<times> responseWriter \<times> ret list" where
  "serveRequest h res reqCmds =
     (let (cmds, i, preparedRes) = stripPrepared res reqCmds (reqCmds, 0, None);
          w = (case preparedRes of
                 None \<Rightarrow> Direct res
               | Some p \<Rightarrow>
                   snd (writer_invoke (Prepared p)
                          (WriteStreamCall (int (length cmds) + int (length (responses p))))));
          cmds' = take i cmds;
          (err, w1, log) = (if length cmds' \<noteq> 0 then serveRedis h w cmds' else (Success, w, []));
          (err1, w2) = (case w1 of
                          Direct r \<Rightarrow> (err, w1)
                        | Prepared p \<Rightarrow>
                            if err = Success
                            then (let (e, p') = writeRemainingValues p in (e, Prepared p'))
                            else (err, w1))
      in if err1 = Success
         then (let (e, r) = Flush (baseOf w2) in (e, r, log))
         else (err1, baseOf w2, log))"

section \<open>Transactions\<close>

text \<open>
  The command reader (conn.go) is not part of the sources at hand. It is a parameter of
  the model: \<open>reads\<close> below is the list of the commands that \<open>CommandReader.Read\<close>
  delivers, in order, before it returns false.

  \<open>txAck\<close> is one pass of the loop that buffers a transaction, up to the call of
  \<open>Read\<close>: load the arguments of the last command, acknowledge it. \<open>txLoop\<close> is the
  loop.
\<close>

definition txAck :: "Conn \<Rightarrow> command list \<Rightarrow> Conn \<times> command list" where
  "txAck c cmds =
     (let lastIndex = length cmds;
          cmds1 = (if lastIndex > 0
                   then cmds[lastIndex - 1 := loadByteArgs (cmds ! (lastIndex - 1))]
                   else cmds);
          c1 = (if lastIndex = 0 then snd (WriteArgs c [''OK'']) else snd (WriteArgs c [''QUEUED'']))
      in (c1, cmds1))"

fun txLoop :: "Conn \<Rightarrow> command list \<Rightarrow> command list \<Rightarrow> Conn \<times> command list" where
  "txLoop c cmds [] = txAck c cmds"
| "txLoop c cmds (cmd # reads) = (let (c1, cmds1) = txAck c cmds in txLoop c1 (cmds1 @ [cmd]) reads)"

text \<open>
  What an iteration of \<open>serveConnection\<close> does with the batch it has read: it hands
  commands to \<open>serveCommands\<close> (the only way to the handler), goes back to the top of the
  loop (\<open>continue\<close>), ends the connection task (\<open>return\<close>), or panics.
\<close>

datatype batch = Dispatch "command list" | Continue | Return | Crash panic

text \<open>
  The iteration from the first command read to the call of \<open>serveCommands\<close>. It returns
  the connection, the local slice \<open>cmds\<close> as it is left, and what happens next.
\<close>

definition serveConnection_batch :: "Conn \<Rightarrow> command \<Rightarrow> command list \<Rightarrow> Conn \<times> command list \<times> batch" where
  "serveConnection_batch c first reads =
     (if Cmd first = ''MULTI''
      then (let (c1, cmds) = txLoop c [first] reads;
                lastIndex = int (length cmds) - 1
            in if lastIndex < 0 then (c1, cmds, Crash IndexOutOfRange)
               else if Cmd (cmds ! nat lastIndex) = ''DISCARD''
               then (let cmds1 = cmds[nat lastIndex :=
                                   (cmds ! nat lastIndex)\<lparr>Args := snd (byteArgs_Close (Args (cmds ! nat lastIndex)))\<rparr>]
                     in case WriteArgs c1 [''OK''] of
                          (Success, c2) \<Rightarrow> (c2, cmds1, Continue)
                        | (e, c2) \<Rightarrow> (c2, cmds1, Return))
               else if 1 > lastIndex then (c1, cmds, Crash SliceBoundsOutOfRange)
               else (c1, take (nat lastIndex - 1) (drop 1 cmds), Dispatch (take (nat lastIndex - 1) (drop 1 cmds))))
      else (c, [first], Dispatch [first]))"

section \<open>Shutdown\<close>

text \<open>
  The two maps of the server that \<open>numberOfActors\<close> reads, by the keys they hold.
\<close>

record Server =
  listeners :: "nat set"
  connections :: "nat set"

definition numberOfActors :: "Server \<Rightarrow> nat" where
  "numberOfActors s = card (connections s) + card (listeners s)"

text \<open>
  Connections and listeners leave the maps from other goroutines while \<open>Shutdown\<close>
  waits, and the context expires by the clock. The model takes both as they are seen
  from the loop: \<open>srv i\<close> is the server when the loop condition is evaluated for the
  \<open>i\<close>-th time (from 0), \<open>ctxErr i\<close> is what \<open>ctx.Err()\<close> returns right after that. The
  \<open>select\<close> in the loop body has two empty cases, so the body only waits. \<open>pollActors\<close>
  is the loop: the number of the evaluation that found no actor, or \<open>None\<close> when
  there is none and the loop runs forever.
\<close>

partial_function (option) pollActors :: "(nat \<Rightarrow> Server) \<Rightarrow> nat \<Rightarrow> nat option" where
  "pollActors srv i = (if numberOfActors (srv i) \<noteq> 0 then pollActors srv (i + 1) else Some i)"

definition Shutdown :: "(nat \<Rightarrow> Server) \<Rightarrow> (nat \<Rightarrow> ret) \<Rightarrow> ret option" where
  "Shutdown srv ctxErr = map_option ctxErr (pollActors srv 0)"

section \<open>Example inputs\<close>

definition ping :: command where
  "ping = \<lparr>Cmd = ''PING'', Args = \<lparr>args = [], err = None\<rparr>\<rparr>"

definition set_a_1 :: command where
  "set_a_1 = \<lparr>Cmd = ''SET'', Args = \<lparr>args = [''a'', ''1''], err = None\<rparr>\<rparr>"

definition set_b_2 :: command where
  "set_b_2 = \<lparr>Cmd = ''SET'', Args = \<lparr>args = [''b'', ''2''], err = None\<rparr>\<rparr>"

definition multi :: command where
  "multi = \<lparr>Cmd = ''MULTI'', Args = \<lparr>args = [], err = None\<rparr>\<rparr>"

definition exec :: command where
  "exec = \<lparr>Cmd = ''EXEC'', Args = \<lparr>args = [], err = None\<rparr>\<rparr>"

definition discard :: command where
  "discard = \<lparr>Cmd = ''DISCARD'', Args = \<lparr>args = [''x''], err = None\<rparr>\<rparr>"

text \<open>A handler that writes \<open>"OK"\<close> once for each command of the request.\<close>

definition okHandler :: handler where
  "okHandler cmds = map (\<lambda>cmd. WriteCall ''OK'') cmds"

text \<open>
  A server with one listener and one connection left when \<open>Shutdown\<close> first looks and
  neither from the second look on, and a context that expires between look \<open>n - 1\<close> and
  look \<open>n\<close>.
\<close>

definition drainsAtSecondLook :: "nat \<Rightarrow> Server" where
  "drainsAtSecondLook i =
     (if i = 0 then \<lparr>listeners = {3}, connections = {7}\<rparr> else \<lparr>listeners = {}, connections = {}\<rparr>)"

definition expiresBefore :: "nat \<Rightarrow> nat \<Rightarrow> ret" where
  "expiresBefore n i = (if i < n then Success else Failure DeadlineExceeded)"

section \<open>Properties of the response writer\<close>

lemma consistent_new: "consistent (newResponseWriter c tmo)"
  by (simp add: consistent_def newResponseWriter_def)

lemma consistent_WriteStream: "consistent res \<Longrightarrow> consistent (snd (WriteStream res n))"
  by (auto simp: consistent_def WriteStream_def Encode_def
      split: option.splits responseWriterType.splits prod.splits)

lemma consistent_Write: "consistent res \<Longrightarrow> consistent (snd (Write res v))"
  by (auto simp: consistent_def Write_def Encode_def Let_def
      split: option.splits prod.splits if_splits)

lemma consistent_Flush: "consistent res \<Longrightarrow> consistent (snd (Flush res))"
  by (auto simp: consistent_def Flush_def Write_def Encode_def wbuffer_Flush_def Let_def
      split: option.splits prod.splits if_splits ret.splits)

lemma consistent_Hijack: "consistent res \<Longrightarrow> consistent (snd (Hijack res))"
  by (auto simp: consistent_def Hijack_def setState_def Let_def split: option.splits)

lemma consistent_invoke: "consistent res \<Longrightarrow> consistent (snd (invoke res c))"
  by (cases c)
    (auto simp: invoke_def consistent_WriteStream consistent_Write consistent_Flush
      split: prod.splits dest: consistent_Hijack)

lemma consistent_calls: "consistent res \<Longrightarrow> consistent (calls res cs)"
  unfolding calls_def by (induction cs arbitrary: res) (auto simp: consistent_invoke)

text \<open>
  \<open>WriteStream\<close>, \<open>Write\<close> and \<open>Flush\<close> never panic: where they use the connection they
  have checked that it is there.
\<close>

lemma WriteStream_never_panics: "fst (WriteStream res n) \<noteq> Panicked p"
  by (auto simp: WriteStream_def Encode_def
      split: option.splits responseWriterType.splits prod.splits)

lemma Write_never_panics: "fst (Write res v) \<noteq> Panicked p"
  by (auto simp: Write_def Encode_def Let_def split: option.splits prod.splits)

lemma Flush_never_panics: "fst (Flush res) \<noteq> Panicked p"
  by (auto simp: Flush_def Write_def Encode_def wbuffer_Flush_def Let_def
      split: option.splits prod.splits ret.splits if_splits)

lemma Write_notype:
  "conn res = Some c \<Longrightarrow> wtype res = notype \<Longrightarrow> \<not> broken c \<Longrightarrow>
   Write res v =
     (Success, res\<lparr>conn := Some ((waitReadyWrite c (timeout res))\<lparr>wbuffer := wbuffer c @ [Value v]\<rparr>),
                   wtype := oneshot, remain := 0\<rparr>)"
  by (simp add: Write_def Encode_def waitReadyWrite_def setWriteTimeout_def)

lemma Flush_notype:
  "conn res = Some c \<Longrightarrow> wtype res = notype \<Longrightarrow> \<not> broken c \<Longrightarrow>
   Flush res =
     (Success, res\<lparr>conn := Some ((waitReadyWrite c (timeout res))
                                   \<lparr>wire := wire c @ wbuffer c @ [Value ''OK''], wbuffer := []\<rparr>),
                   wtype := oneshot, remain := 0\<rparr>)"
  by (simp add: Flush_def Write_notype wbuffer_Flush_def waitReadyWrite_def setWriteTimeout_def)

lemma Flush_short:
  "conn res \<noteq> None \<Longrightarrow> wtype res \<noteq> notype \<Longrightarrow> remain res \<noteq> 0 \<Longrightarrow>
   Flush res = (Failure ErrWriteCalledNotEnoughTimes, res)"
  by (auto simp: Flush_def split: option.splits)

lemma calls_stream_2_write_1:
  "calls (newResponseWriter conn0 0) [WriteStreamCall 2, WriteCall ''a''] =
     \<lparr>conn = Some (conn0\<lparr>wbuffer := [ArrayBegin 2, Value ''a'']\<rparr>), wtype = stream, remain = 1, timeout = 0\<rparr>"
  by (simp add: calls_def invoke_def newResponseWriter_def conn0_def WriteStream_def Write_def
      Encode_def waitReadyWrite_def)

text \<open>
  C7. \<open>Flush\<close> on a writer of no type (no \<open>Write\<close>, no \<open>WriteStream\<close> before: the handler
  wrote nothing) over a healthy connection writes the one value \<open>"OK"\<close> and sends the
  buffer, without error. \<open>Flush\<close> on a writer reached from a new one by any calls, not
  hijacked and with writes remaining, returns \<open>ErrWriteCalledNotEnoughTimes\<close> and
  changes nothing.
\<close>

theorem C7_Flush_initial_and_short:
  "(conn res = Some c \<and> wtype res = notype \<and> \<not> broken c \<longrightarrow>
      Flush res =
        (Success, res\<lparr>conn := Some ((waitReadyWrite c (timeout res))
                                      \<lparr>wire := wire c @ wbuffer c @ [Value ''OK''], wbuffer := []\<rparr>),
                      wtype := oneshot, remain := 0\<rparr>))
   \<and> (conn (calls (newResponseWriter c0 tmo) cs) \<noteq> None \<and>
      remain (calls (newResponseWriter c0 tmo) cs) \<noteq> 0 \<longrightarrow>
      Flush (calls (newResponseWriter c0 tmo) cs) =
        (Failure ErrWriteCalledNotEnoughTimes, calls (newResponseWriter c0 tmo) cs))"
proof (intro conjI impI)
  assume "conn res = Some c \<and> wtype res = notype \<and> \<not> broken c"
  then show "Flush res =
        (Success, res\<lparr>conn := Some ((waitReadyWrite c (timeout res))
                                      \<lparr>wire := wire c @ wbuffer c @ [Value ''OK''], wbuffer := []\<rparr>),
                      wtype := oneshot, remain := 0\<rparr>)"
    by (simp add: Flush_notype)
next
  let ?res = "calls (newResponseWriter c0 tmo) cs"
  assume a: "conn ?res \<noteq> None \<and> remain ?res \<noteq> 0"
  have "consistent ?res" by (simp add: consistent_calls consistent_new)
  with a have "wtype ?res \<noteq> notype" by (auto simp: consistent_def)
  with a show "Flush ?res = (Failure ErrWriteCalledNotEnoughTimes, ?res)"
    using Flush_short [of ?res] by blast
qed

text \<open>
  The theorem at a new writer, and at the writer after \<open>WriteStream(2)\<close> and one
  \<open>Write\<close>.
\<close>

theorem C7_Flush_witness:
  "conn (newResponseWriter conn0 0) = Some conn0 \<and> wtype (newResponseWriter conn0 0) = notype \<and>
   \<not> broken conn0 \<and>
   Flush (newResponseWriter conn0 0) =
     (Success, \<lparr>conn = Some (conn0\<lparr>wire := [Value ''OK'']\<rparr>), wtype = oneshot, remain = 0, timeout = 0\<rparr>) \<and>
   remain (calls (newResponseWriter conn0 0) [WriteStreamCall 2, WriteCall ''a'']) = 1 \<and>
   Flush (calls (newResponseWriter conn0 0) [WriteStreamCall 2, WriteCall ''a'']) =
     (Failure ErrWriteCalledNotEnoughTimes,
      \<lparr>conn = Some (conn0\<lparr>wbuffer := [ArrayBegin 2, Value ''a'']\<rparr>), wtype = stream, remain = 1, timeout = 0\<rparr>)"
  using C7_Flush_initial_and_short
    [of "newResponseWriter conn0 0" conn0 conn0 0 "[WriteStreamCall 2, WriteCall ''a'']"]
  by (simp add: calls_stream_2_write_1) (simp add: newResponseWriter_def conn0_def waitReadyWrite_def)

text \<open>
  C9. On a writer of no type over a healthy connection, \<open>WriteStream(0)\<close> succeeds, and
  the \<open>Flush\<close> that follows with no \<open>Write\<close> in between succeeds too: the client has
  received what was buffered before and then the header of an empty array, and no
  \<open>"OK"\<close>. On any writer that has a type (\<open>WriteStream\<close> or \<open>Write\<close> was called),
  \<open>Flush\<close> adds no frame of its own.
\<close>

theorem C9_empty_stream_flushes:
  "(conn res = Some c \<and> wtype res = notype \<and> \<not> broken c \<longrightarrow>
     (\<exists>res1 res2 c2.
        WriteStream res 0 = (Success, res1) \<and> Flush res1 = (Success, res2) \<and>
        conn res2 = Some c2 \<and> wire c2 = wire c @ wbuffer c @ [ArrayBegin 0] \<and> wbuffer c2 = [] \<and>
        Value ''OK'' \<notin> set (drop (length (wire c @ wbuffer c)) (wire c2)))) \<and>
   (conn res = Some c \<and> wtype res \<noteq> notype \<longrightarrow>
     (\<exists>c'. conn (snd (Flush res)) = Some c' \<and> wire c' @ wbuffer c' = wire c @ wbuffer c))"
  by (auto simp: WriteStream_def Flush_def Encode_def wbuffer_Flush_def waitReadyWrite_def
      setWriteTimeout_def)

theorem C9_empty_stream_witness:
  "conn (newResponseWriter conn0 0) = Some conn0 \<and> wtype (newResponseWriter conn0 0) = notype \<and>
   \<not> broken conn0 \<and>
   fst (WriteStream (newResponseWriter conn0 0) 0) = Success \<and>
   fst (Flush (snd (WriteStream (newResponseWriter conn0 0) 0))) = Success \<and>
   map_option wire (conn (snd (Flush (snd (WriteStream (newResponseWriter conn0 0) 0))))) =
     Some [ArrayBegin 0]"
  using C9_empty_stream_flushes [of "newResponseWriter conn0 0" conn0]
  by (auto simp: newResponseWriter_def conn0_def)

text \<open>
  \<open>Flush\<close> succeeds exactly on a writer that has its connection, over a stream that
  does not fail, with no write missing: the writer has no type yet (\<open>Flush\<close> writes the
  \<open>"OK"\<close> itself), or nothing remains to be written.
\<close>

lemma Flush_Success_iff:
  "fst (Flush res) = Success \<longleftrightarrow>
     (\<exists>k. conn res = Some k \<and> \<not> broken k) \<and> (wtype res = notype \<or> remain res = 0)"
  by (auto simp: Flush_def Write_def Encode_def wbuffer_Flush_def waitReadyWrite_def
      setWriteTimeout_def Let_def split: option.splits prod.splits ret.splits if_splits)

lemma violation_keeps_writer:
  assumes v: "violation (fst (invoke res c))"
  shows "snd (invoke res c) = res \<and> conn res \<noteq> None"
proof (cases c)
  case (WriteStreamCall n)
  with v show ?thesis
    by (auto simp: invoke_def violation_def WriteStream_def Encode_def
        split: option.splits responseWriterType.splits if_splits)
next
  case (WriteCall x)
  with v show ?thesis
    by (auto simp: invoke_def violation_def Write_def Encode_def Let_def
        split: option.splits if_splits)
next
  case FlushCall
  with v show ?thesis
    by (auto simp: invoke_def violation_def Flush_def Write_def Encode_def wbuffer_Flush_def
        Let_def split: option.splits if_splits ret.splits prod.splits)
next
  case HijackCall
  with v show ?thesis
    by (auto simp: invoke_def violation_def Hijack_def setState_def Let_def split: option.splits)
qed

text \<open>
  C6, as the code has it. A call that returns one of the four contract errors leaves
  the writer as it was, with its connection. The violation therefore does not make the
  next \<open>Flush\<close> fail: that \<open>Flush\<close> succeeds if and only if the stream does not fail
  and no write is missing (the writer has no type, or nothing remains to be written),
  and it returns \<open>ErrWriteCalledNotEnoughTimes\<close> when the writer has a type and writes
  remain.
\<close>

theorem C6_violation_keeps_writer:
  "violation (fst (invoke res c)) \<Longrightarrow>
     snd (invoke res c) = res \<and> conn res \<noteq> None \<and>
     (fst (Flush (snd (invoke res c))) = Success \<longleftrightarrow>
        (\<exists>k. conn res = Some k \<and> \<not> broken k) \<and> (wtype res = notype \<or> remain res = 0)) \<and>
     (wtype res \<noteq> notype \<and> remain res \<noteq> 0 \<longrightarrow>
        Flush (snd (invoke res c)) = (Failure ErrWriteCalledNotEnoughTimes, res))"
proof -
  assume v: "violation (fst (invoke res c))"
  have k: "snd (invoke res c) = res" "conn res \<noteq> None"
    using violation_keeps_writer [OF v] by simp_all
  have s: "fst (Flush res) = Success \<longleftrightarrow>
      (\<exists>k. conn res = Some k \<and> \<not> broken k) \<and> (wtype res = notype \<or> remain res = 0)"
    by (rule Flush_Success_iff)
  have n: "wtype res \<noteq> notype \<and> remain res \<noteq> 0 \<longrightarrow>
      Flush res = (Failure ErrWriteCalledNotEnoughTimes, res)"
    using k(2) Flush_short [of res] by blast
  show ?thesis using k s n by simp
qed

text \<open>
  The theorem at \<open>WriteStream(-1)\<close> on a new writer: the call returns
  \<open>ErrNegativeStreamCount\<close>, the writer is still new, and \<open>Flush\<close> succeeds. And at a
  second \<open>WriteStream\<close> on a stream of two with one value written: the call returns
  \<open>ErrWriteStreamCalledTooManyTimes\<close>, and \<open>Flush\<close> returns
  \<open>ErrWriteCalledNotEnoughTimes\<close>, for the write that was missing before the call.
\<close>

theorem C6_violation_witness:
  "violation (fst (invoke (newResponseWriter conn0 0) (WriteStreamCall (- 1)))) \<and>
   snd (invoke (newResponseWriter conn0 0) (WriteStreamCall (- 1))) = newResponseWriter conn0 0 \<and>
   fst (Flush (snd (invoke (newResponseWriter conn0 0) (WriteStreamCall (- 1))))) = Success \<and>
   violation (fst (invoke (calls (newResponseWriter conn0 0) [WriteStreamCall 2, WriteCall ''a''])
                (WriteStreamCall 5))) \<and>
   fst (Flush (snd (invoke (calls (newResponseWriter conn0 0) [WriteStreamCall 2, WriteCall ''a''])
                (WriteStreamCall 5)))) = Failure ErrWriteCalledNotEnoughTimes"
proof -
  let ?w = "calls (newResponseWriter conn0 0) [WriteStreamCall 2, WriteCall ''a'']"
  have v: "violation (fst (invoke (newResponseWriter conn0 0) (WriteStreamCall (- 1))))"
    by (simp add: violation_def invoke_def WriteStream_def newResponseWriter_def)
  have v2: "violation (fst (invoke ?w (WriteStreamCall 5)))"
    by (simp add: calls_stream_2_write_1 violation_def invoke_def WriteStream_def)
  have t: "wtype ?w \<noteq> notype \<and> remain ?w \<noteq> 0"
    by (simp add: calls_stream_2_write_1)
  have h: "(\<exists>k. conn (newResponseWriter conn0 0) = Some k \<and> \<not> broken k) \<and>
      (wtype (newResponseWriter conn0 0) = notype \<or> remain (newResponseWriter conn0 0) = 0)"
    by (simp add: newResponseWriter_def conn0_def)
  have a: "snd (invoke (newResponseWriter conn0 0) (WriteStreamCall (- 1))) = newResponseWriter conn0 0"
    using C6_violation_keeps_writer [OF v] by blast
  have b: "fst (Flush (snd (invoke (newResponseWriter conn0 0) (WriteStreamCall (- 1))))) = Success"
    using C6_violation_keeps_writer [OF v] h by blast
  have "Flush (snd (invoke ?w (WriteStreamCall 5))) = (Failure ErrWriteCalledNotEnoughTimes, ?w)"
    using C6_violation_keeps_writer [OF v2] t by blast
  then have c: "fst (Flush (snd (invoke ?w (WriteStreamCall 5)))) = Failure ErrWriteCalledNotEnoughTimes"
    by (simp only: fst_conv)
  show ?thesis using v v2 a b c by blast
qed

text \<open>
  C6 as stated fails on scenario S5 of the spec: after \<open>WriteStream(2)\<close> and two writes,
  the third \<open>Write\<close> returns \<open>ErrWriteCalledTooManyTimes\<close>, and the \<open>Flush\<close> after it
  succeeds.
\<close>

theorem C6_flush_succeeds_after_violation:
  "fst (invoke (calls (newResponseWriter conn0 0) [WriteStreamCall 2, WriteCall ''1'', WriteCall ''2''])
         (WriteCall ''3'')) = Failure ErrWriteCalledTooManyTimes \<and>
   fst (Flush (calls (newResponseWriter conn0 0)
                [WriteStreamCall 2, WriteCall ''1'', WriteCall ''2'', WriteCall ''3''])) = Success"
  by (simp add: calls_def invoke_def newResponseWriter_def conn0_def WriteStream_def Write_def
      Flush_def Encode_def wbuffer_Flush_def waitReadyWrite_def)

text \<open>
  C4. \<open>Hijack\<close> on a new writer does not return the connection: it sets \<open>res.conn\<close> to nil
  and panics in \<open>setState\<close>, called through the nil pointer. No connection is handed
  over and none is marked as hijacked. The writer is left without a connection, so
  every later call on it returns \<open>ErrHijacked\<close>.
\<close>

theorem C4_Hijack_panics:
  "Hijack (newResponseWriter c tmo) =
     ((Panicked NilPointerDereference, None), (newResponseWriter c tmo)\<lparr>conn := None\<rparr>) \<and>
   fst (WriteStream (snd (Hijack (newResponseWriter c tmo))) n) = Failure ErrHijacked \<and>
   fst (Write (snd (Hijack (newResponseWriter c tmo))) v) = Failure ErrHijacked \<and>
   fst (Flush (snd (Hijack (newResponseWriter c tmo)))) = Failure ErrHijacked \<and>
   fst (Hijack (snd (Hijack (newResponseWriter c tmo)))) = (Failure ErrHijacked, None)"
  by (simp add: Hijack_def WriteStream_def Write_def Flush_def newResponseWriter_def setState_def)

section \<open>Prepared responses\<close>

lemma stripPrepared_set_ping:
  "stripPrepared (newResponseWriter conn0 0) [set_a_1, ping] ([set_a_1, ping], 0, None) =
     ([set_a_1, ping], 1,
      Some \<lparr>base = newResponseWriter conn0 0, index = 0,
             responses = [\<lparr>pr_index = 1, pr_value = ''PONG''\<rparr>]\<rparr>)"
  by (simp add: set_a_1_def ping_def addPreparedResponse_def pingMessage_def)

lemma stripPrepared_ping_set:
  "stripPrepared (newResponseWriter conn0 0) [ping, set_a_1] ([ping, set_a_1], 0, None) =
     ([set_a_1, set_a_1], 1,
      Some \<lparr>base = newResponseWriter conn0 0, index = 0,
             responses = [\<lparr>pr_index = 0, pr_value = ''PONG''\<rparr>]\<rparr>)"
  by (simp add: set_a_1_def ping_def addPreparedResponse_def pingMessage_def)

text \<open>The wrapper's \<open>WriteStream\<close> never reaches the writer it wraps.\<close>

lemma preparedResponseWriter_WriteStream_keeps_base:
  "preparedResponseWriter_WriteStream p n = (Failure ErrWriteStreamCalledTooManyTimes, p)"
  by (simp add: preparedResponseWriter_WriteStream_def)

text \<open>
  Neither \<open>Write\<close>, \<open>Flush\<close> nor \<open>Hijack\<close> turns a writer into a stream: only
  \<open>WriteStream\<close> on the writer itself does. The wrapper never calls it, so a request with
  a \<open>PING\<close> leaves the request's writer without a stream, whatever the handler does.
\<close>

lemma Write_not_stream: "wtype res \<noteq> stream \<Longrightarrow> wtype (snd (Write res v)) \<noteq> stream"
  by (auto simp: Write_def Encode_def Let_def split: option.splits prod.splits if_splits)

lemma Flush_not_stream: "wtype res \<noteq> stream \<Longrightarrow> wtype (snd (Flush res)) \<noteq> stream"
  by (auto simp: Flush_def Write_def Encode_def wbuffer_Flush_def Let_def
      split: option.splits prod.splits if_splits ret.splits)

lemma Hijack_not_stream: "wtype res \<noteq> stream \<Longrightarrow> wtype (snd (Hijack res)) \<noteq> stream"
  by (auto simp: Hijack_def setState_def Let_def split: option.splits)

lemma writeValues_not_stream: "wtype b \<noteq> stream \<Longrightarrow> wtype (snd (writeValues b rs)) \<noteq> stream"
proof (induction rs arbitrary: b)
  case Nil
  then show ?case by simp
next
  case (Cons r rs)
  obtain e b' where w: "Write b (pr_value r) = (e, b')" by (cases "Write b (pr_value r)")
  with Cons.prems have "wtype b' \<noteq> stream" using Write_not_stream [of b "pr_value r"] by simp
  with w Cons.IH [of b'] show ?case by (cases e) simp_all
qed

lemma prepared_Write_not_stream:
  "wtype (base p) \<noteq> stream \<Longrightarrow> wtype (base (snd (preparedResponseWriter_Write p v))) \<noteq> stream"
proof -
  assume a: "wtype (base p) \<noteq> stream"
  have w: "\<And>b v. wtype b \<noteq> stream \<Longrightarrow> wtype (snd (Write b v)) \<noteq> stream"
    by (rule Write_not_stream)
  show ?thesis
    using a w [of "base p"]
    apply (auto simp: preparedResponseWriter_Write_def Let_def
        split: list.splits prod.splits if_splits ret.splits)
     apply (metis snd_conv w)+
    done
qed

lemma prepared_invoke_not_stream:
  "wtype (base p) \<noteq> stream \<Longrightarrow>
   \<exists>p'. snd (writer_invoke (Prepared p) c) = Prepared p' \<and> wtype (base p') \<noteq> stream"
proof (cases c)
  case (WriteStreamCall n)
  assume "wtype (base p) \<noteq> stream"
  with WriteStreamCall show ?thesis
    by (simp add: writer_invoke_def preparedResponseWriter_WriteStream_def)
next
  case (WriteCall v)
  assume "wtype (base p) \<noteq> stream"
  with WriteCall show ?thesis
    using prepared_Write_not_stream [of p v]
    by (auto simp: writer_invoke_def split: prod.splits)
next
  case FlushCall
  assume "wtype (base p) \<noteq> stream"
  with FlushCall show ?thesis
    using Flush_not_stream [of "base p"]
    by (auto simp: writer_invoke_def preparedResponseWriter_Flush_def split: prod.splits)
next
  case HijackCall
  assume "wtype (base p) \<noteq> stream"
  with HijackCall show ?thesis
    using Hijack_not_stream [of "base p"]
    by (auto simp: writer_invoke_def preparedResponseWriter_Hijack_def split: prod.splits)
qed

lemma ServeRedis_not_stream:
  "wtype (base p) \<noteq> stream \<Longrightarrow>
   \<exists>p'. fst (snd (ServeRedis cs (Prepared p) log)) = Prepared p' \<and> wtype (base p') \<noteq> stream"
proof (induction cs arbitrary: p log)
  case Nil
  then show ?case by simp
next
  case (Cons c cs)
  obtain r w' where i: "writer_invoke (Prepared p) c = (r, w')" by (cases "writer_invoke (Prepared p) c")
  then obtain p' where p': "w' = Prepared p'" "wtype (base p') \<noteq> stream"
    using prepared_invoke_not_stream [OF Cons.prems, of c] by auto
  show ?case
  proof (cases r)
    case Success
    with i p' Cons.IH [OF p'(2)] show ?thesis by simp
  next
    case (Failure e)
    with i p' Cons.IH [OF p'(2)] show ?thesis by simp
  next
    case (Panicked x)
    with i p' show ?thesis by simp
  qed
qed

lemma stripPrepared_Some:
  "preparedRes = Some p \<Longrightarrow> base p = res \<Longrightarrow>
   \<exists>cmds' i' p'. stripPrepared res rest (cmds, i, preparedRes) = (cmds', i', Some p') \<and> base p' = res"
proof (induction rest arbitrary: cmds i preparedRes p)
  case Nil
  then show ?case by simp
next
  case (Cons cmd rest)
  show ?case
  proof (cases "Cmd cmd = ''PING''")
    case True
    obtain q where q: "addPreparedResponse res preparedRes (int i) (pingMessage cmd) = Some q" "base q = res"
      using Cons.prems by (simp add: addPreparedResponse_def)
    with True Cons.IH [OF q] show ?thesis by simp
  next
    case False
    with Cons.IH [OF Cons.prems] show ?thesis by simp
  qed
qed

lemma stripPrepared_PING:
  "\<exists>cmd \<in> set rest. Cmd cmd = ''PING'' \<Longrightarrow>
   \<exists>cmds' i' p'. stripPrepared res rest (cmds, i, None) = (cmds', i', Some p') \<and> base p' = res"
proof (induction rest arbitrary: cmds i)
  case Nil
  then show ?case by simp
next
  case (Cons cmd rest)
  show ?case
  proof (cases "Cmd cmd = ''PING''")
    case True
    obtain q where q: "addPreparedResponse res None (int i) (pingMessage cmd) = Some q" "base q = res"
      by (simp add: addPreparedResponse_def)
    with True stripPrepared_Some [OF q, of rest cmds i] show ?thesis by simp
  next
    case False
    with Cons.prems have "\<exists>cmd \<in> set rest. Cmd cmd = ''PING''" by auto
    with False Cons.IH show ?thesis by simp
  qed
qed

lemma serveRequest_PING_never_stream:
  assumes "\<exists>cmd \<in> set reqCmds. Cmd cmd = ''PING''" and "wtype res \<noteq> stream"
  shows "wtype (fst (snd (serveRequest h res reqCmds))) \<noteq> stream"
proof -
  obtain cmds i p where s: "stripPrepared res reqCmds (reqCmds, 0, None) = (cmds, i, Some p)" "base p = res"
    using stripPrepared_PING [OF assms(1), of res reqCmds 0] by auto
  have w: "snd (writer_invoke (Prepared p) (WriteStreamCall n)) = Prepared p" for n
    by (simp add: writer_invoke_def preparedResponseWriter_WriteStream_def)
  have ns: "wtype (base p) \<noteq> stream" using s assms(2) by simp
  obtain err w1 log where h: "(if length (take i cmds) \<noteq> 0 then serveRedis h (Prepared p) (take i cmds) else (Success, Prepared p, [])) = (err, w1, log)"
    by (metis prod_cases3)
  have "\<exists>p1. w1 = Prepared p1 \<and> wtype (base p1) \<noteq> stream"
  proof (cases "length (take i cmds) \<noteq> 0")
    case True
    obtain po w' l' where sr: "ServeRedis (h (take i cmds)) (Prepared p) [] = (po, w', l')" by (metis prod_cases3)
    with ServeRedis_not_stream [OF ns, of "h (take i cmds)" "[]"] have "\<exists>p1. w' = Prepared p1 \<and> wtype (base p1) \<noteq> stream" by simp
    with True h sr show ?thesis by (auto simp: serveRedis_def split: option.splits)
  next
    case False
    with h ns show ?thesis by auto
  qed
  then obtain p1 where p1: "w1 = Prepared p1" "wtype (base p1) \<noteq> stream" by auto
  have wr: "wtype (base (snd (writeRemainingValues p1))) \<noteq> stream"
    using writeValues_not_stream [OF p1(2), of "responses p1"]
    by (auto simp: writeRemainingValues_def split: prod.splits)
  define Y where "Y = (if err = Success
      then (let (e, p') = writeRemainingValues p1 in (e, Prepared p')) else (err, Prepared p1))"
  have B: "wtype (baseOf (snd Y)) \<noteq> stream"
    unfolding Y_def using p1 wr by (auto simp: baseOf_def split: prod.splits)
  have eq: "serveRequest h res reqCmds =
      (if fst Y = Success then (let (e, r) = Flush (baseOf (snd Y)) in (e, r, log))
       else (fst Y, baseOf (snd Y), log))"
    unfolding serveRequest_def s
    apply (simp only: prod.case option.case w Let_def h)
    apply (simp add: p1 Y_def split: prod.splits)
    done
  show ?thesis
    unfolding eq using B Flush_not_stream [OF B] by (auto split: prod.splits)
qed

text \<open>
  C1. The claim fails on the code. With a prepared response in the request, the engine
  calls \<open>WriteStream\<close> on the wrapper, which refuses it, so the request's writer never
  becomes a stream and accepts one value only. On the request \<open>SET a 1, PING\<close> with a
  handler that writes one value per command, the handler's value is buffered, the
  prepared \<open>"PONG"\<close> is refused with \<open>ErrWriteCalledTooManyTimes\<close>, \<open>serveRequest\<close>
  returns that error and nothing is flushed. On \<open>PING, SET a 1\<close> the \<open>"PONG"\<close> goes
  first, the handler's \<open>Write\<close> is refused, and the client receives the one value
  \<open>"PONG"\<close>, not in an array.
\<close>

theorem C1_prepared_requests_write_one_value:
  "serveRequest okHandler (newResponseWriter conn0 0) [set_a_1, ping] =
     (Failure ErrWriteCalledTooManyTimes,
      \<lparr>conn = Some (conn0\<lparr>wbuffer := [Value ''OK'']\<rparr>), wtype = oneshot, remain = 0, timeout = 0\<rparr>,
      [Success]) \<and>
   serveRequest okHandler (newResponseWriter conn0 0) [ping, set_a_1] =
     (Success,
      \<lparr>conn = Some (conn0\<lparr>wire := [Value ''PONG'']\<rparr>), wtype = oneshot, remain = 0, timeout = 0\<rparr>,
      [Failure ErrWriteCalledTooManyTimes])"
proof
  show "serveRequest okHandler (newResponseWriter conn0 0) [set_a_1, ping] =
     (Failure ErrWriteCalledTooManyTimes,
      \<lparr>conn = Some (conn0\<lparr>wbuffer := [Value ''OK'']\<rparr>), wtype = oneshot, remain = 0, timeout = 0\<rparr>,
      [Success])"
    unfolding serveRequest_def stripPrepared_set_ping
    by (simp add: writer_invoke_def preparedResponseWriter_WriteStream_def serveRedis_def
        okHandler_def preparedResponseWriter_Write_def writeRemainingValues_def baseOf_def
        newResponseWriter_def conn0_def Write_def Flush_def Encode_def wbuffer_Flush_def
        waitReadyWrite_def)
  show "serveRequest okHandler (newResponseWriter conn0 0) [ping, set_a_1] =
     (Success,
      \<lparr>conn = Some (conn0\<lparr>wire := [Value ''PONG'']\<rparr>), wtype = oneshot, remain = 0, timeout = 0\<rparr>,
      [Failure ErrWriteCalledTooManyTimes])"
    unfolding serveRequest_def stripPrepared_ping_set
    by (simp add: writer_invoke_def preparedResponseWriter_WriteStream_def serveRedis_def
        okHandler_def preparedResponseWriter_Write_def writeRemainingValues_def baseOf_def
        newResponseWriter_def conn0_def Write_def Flush_def Encode_def wbuffer_Flush_def
        waitReadyWrite_def)
qed

section \<open>Transactions\<close>

lemma txAck_cmds: "snd (txAck c cmds) = cmds"
  by (simp add: txAck_def loadByteArgs_def Let_def)

lemma txAck_conn: "cmds \<noteq> [] \<Longrightarrow> fst (txAck c cmds) = snd (WriteArgs c [''QUEUED''])"
  by (simp add: txAck_def Let_def)

lemma txLoop_cmds: "snd (txLoop c cmds reads) = cmds @ reads"
proof (induction reads arbitrary: c cmds)
  case Nil
  then show ?case by (simp add: txAck_cmds)
next
  case (Cons r reads)
  obtain c1 cmds1 where a: "txAck c cmds = (c1, cmds1)" by (cases "txAck c cmds")
  then have "cmds1 = cmds" using txAck_cmds [of c cmds] by simp
  with a Cons.IH [of c1 "cmds @ [r]"] show ?case by simp
qed

text \<open>
  On a healthy connection the buffering loop acknowledges the first command and every
  command read after it with \<open>"QUEUED"\<close>: the branch that writes \<open>"OK"\<close> needs an empty
  \<open>cmds\<close>, and \<open>cmds\<close> holds the first command from the start.
\<close>

lemma txLoop_wire:
  "\<not> broken c \<Longrightarrow> cmds \<noteq> [] \<Longrightarrow>
   fst (txLoop c cmds reads) =
     c\<lparr>wire := wire c @ wbuffer c @ replicate (Suc (length reads)) (Value ''QUEUED''), wbuffer := []\<rparr>"
proof (induction reads arbitrary: c cmds)
  case Nil
  then show ?case by (simp add: txAck_conn WriteArgs_def)
next
  case (Cons r reads)
  obtain c1 cmds1 where a: "txAck c cmds = (c1, cmds1)" by (cases "txAck c cmds")
  with Cons.prems have c1: "c1 = c\<lparr>wire := wire c @ wbuffer c @ [Value ''QUEUED''], wbuffer := []\<rparr>"
    using txAck_conn [of cmds c] by (simp add: WriteArgs_def)
  then have nb: "\<not> broken c1" using Cons.prems by simp
  have "fst (txLoop c1 (cmds1 @ [r]) reads) =
      c1\<lparr>wire := wire c1 @ wbuffer c1 @ replicate (Suc (length reads)) (Value ''QUEUED''), wbuffer := []\<rparr>"
    using Cons.IH [OF nb] by simp
  with a c1 show ?case by (simp add: replicate_app_Cons_same)
qed

lemma txLoop_broken: "broken c \<Longrightarrow> fst (txLoop c cmds reads) = c"
  by (induction reads arbitrary: c cmds) (auto simp: txAck_def WriteArgs_def Let_def split: prod.splits)

text \<open>
  C2. The claim fails on the code, on scenario S3 of the spec: for \<open>MULTI\<close>,
  \<open>SET a 1\<close>, \<open>SET b 2\<close>, \<open>EXEC\<close> the handler is given the two \<open>SET\<close> commands, and before
  that the client has received four times \<open>"QUEUED"\<close>: no \<open>"OK"\<close> for \<open>MULTI\<close>, and
  one more acknowledgement than \<open>1 + 2\<close>.
\<close>

theorem C2_multi_acknowledged_queued:
  "serveConnection_batch conn0 multi [set_a_1, set_b_2, exec] =
     (conn0\<lparr>wire := [Value ''QUEUED'', Value ''QUEUED'', Value ''QUEUED'', Value ''QUEUED'']\<rparr>,
      [set_a_1, set_b_2], Dispatch [set_a_1, set_b_2])"
  by (simp add: serveConnection_batch_def multi_def exec_def set_a_1_def set_b_2_def txAck_def loadByteArgs_def
      WriteArgs_def conn0_def)

text \<open>
  C3. When the first command is \<open>MULTI\<close> and the last command buffered is \<open>DISCARD\<close>,
  the iteration never reaches \<open>serveCommands\<close>, so the handler is not invoked. The
  arguments of the \<open>DISCARD\<close> are closed (none is left), and on a healthy connection a
  final \<open>"OK"\<close> follows what the buffering loop has sent and the iteration ends in
  \<open>continue\<close>; on a broken one it ends the connection task.
\<close>

theorem C3_discard_never_dispatched:
  "Cmd first = ''MULTI'' \<and> Cmd (last (first # reads)) = ''DISCARD'' \<longrightarrow>
     (\<exists>c' cmds'. serveConnection_batch c first reads = (c', cmds', if broken c then Return else Continue) \<and>
        cmds' \<noteq> [] \<and> Cmd (last cmds') = ''DISCARD'' \<and> byteArgs_Len (Args (last cmds')) = 0 \<and>
        (if broken c then c' = c
         else wire c' = wire (fst (txLoop c [first] reads)) @ [Value ''OK''] \<and> wbuffer c' = []))"
proof (intro impI)
  assume a: "Cmd first = ''MULTI'' \<and> Cmd (last (first # reads)) = ''DISCARD''"
  then have r: "reads \<noteq> []" by auto
  obtain c1 cmds where t: "txLoop c [first] reads = (c1, cmds)" by (cases "txLoop c [first] reads")
  then have cmds: "cmds = first # reads" using txLoop_cmds [of c "[first]" reads] by simp
  then have ne: "cmds \<noteq> []" by simp
  have n: "nat (int (length cmds) - 1) = length cmds - 1" by simp
  have l: "cmds ! (length cmds - 1) = last reads"
    using r cmds by (simp add: last_conv_nth)
  have d: "Cmd (cmds ! (length cmds - 1)) = ''DISCARD''" using a r l by simp
  have p: "\<not> int (length cmds) - 1 < 0" using ne by (cases cmds) simp_all
  show "\<exists>c' cmds'. serveConnection_batch c first reads = (c', cmds', if broken c then Return else Continue) \<and>
        cmds' \<noteq> [] \<and> Cmd (last cmds') = ''DISCARD'' \<and> byteArgs_Len (Args (last cmds')) = 0 \<and>
        (if broken c then c' = c
         else wire c' = wire (fst (txLoop c [first] reads)) @ [Value ''OK''] \<and> wbuffer c' = [])"
  proof (cases "broken c")
    case True
    then have "c1 = c" using t txLoop_broken [of c "[first]" reads] by simp
    with True a t n d p ne show ?thesis
      by (simp add: serveConnection_batch_def WriteArgs_def byteArgs_Close_def byteArgs_Len_def last_list_update)
  next
    case False
    then have "c1 = c\<lparr>wire := wire c @ wbuffer c @ replicate (Suc (length reads)) (Value ''QUEUED''),
                       wbuffer := []\<rparr>"
      using t txLoop_wire [of c "[first]" reads] by simp
    with False a t n d p ne show ?thesis
      by (simp add: serveConnection_batch_def WriteArgs_def byteArgs_Close_def byteArgs_Len_def last_list_update)
  qed
qed

text \<open>
  The theorem on scenario S4 of the spec, \<open>MULTI\<close>, \<open>SET a 1\<close>, \<open>DISCARD\<close>: the iteration
  ends in \<open>continue\<close>, the last frame sent is \<open>"OK"\<close>, and the \<open>DISCARD\<close> has no argument
  left.
\<close>

theorem C3_discard_witness:
  "Cmd multi = ''MULTI'' \<and> Cmd (last (multi # [set_a_1, discard])) = ''DISCARD'' \<and>
   snd (snd (serveConnection_batch conn0 multi [set_a_1, discard])) = Continue \<and>
   last (wire (fst (serveConnection_batch conn0 multi [set_a_1, discard]))) = Value ''OK'' \<and>
   args (Args (last (fst (snd (serveConnection_batch conn0 multi [set_a_1, discard]))))) = []"
  using C3_discard_never_dispatched [of multi "[set_a_1, discard]" conn0]
  by (simp add: serveConnection_batch_def multi_def discard_def set_a_1_def txAck_def loadByteArgs_def
      WriteArgs_def conn0_def byteArgs_Close_def)

section \<open>Shutdown\<close>

text \<open>The loop ends at the first look that finds no actor.\<close>

lemma pollActors_first_zero:
  "numberOfActors (srv d) = 0 \<Longrightarrow>
   (\<forall>j. i \<le> j \<and> j < d \<longrightarrow> numberOfActors (srv j) \<noteq> 0) \<Longrightarrow> i \<le> d \<Longrightarrow>
   pollActors srv i = Some d"
proof (induction "d - i" arbitrary: i)
  case 0
  then have "i = d" by simp
  with 0 show ?case by (subst pollActors.simps) simp
next
  case (Suc n)
  then have lt: "i < d" by simp
  with Suc.prems have nz: "numberOfActors (srv i) \<noteq> 0" by simp
  have "pollActors srv (i + 1) = Some d"
    using Suc.hyps(1) [of "i + 1"] Suc.hyps(2) Suc.prems lt by simp
  with nz show ?case by (subst pollActors.simps) simp
qed

text \<open>It ends in no other way: not when the context expires.\<close>

lemma pollActors_Some_zero:
  assumes "pollActors srv i = Some d"
  shows "i \<le> d \<and> numberOfActors (srv d) = 0"
proof (rule pollActors.raw_induct
    [where P = "\<lambda>srv i d. i \<le> d \<and> numberOfActors (srv d) = 0", OF _ assms])
  fix poll :: "(nat \<Rightarrow> Server) \<Rightarrow> nat \<Rightarrow> nat option" and srv i d
  assume IH: "\<And>srv i y. poll srv i = Some y \<Longrightarrow> i \<le> y \<and> numberOfActors (srv y) = 0"
    and step: "(if numberOfActors (srv i) \<noteq> 0 then poll srv (i + 1) else Some i) = Some d"
  show "i \<le> d \<and> numberOfActors (srv d) = 0"
  proof (cases "numberOfActors (srv i) = 0")
    case True
    with step show ?thesis by simp
  next
    case False
    with step have "poll srv (i + 1) = Some d" by simp
    then have "i + 1 \<le> d \<and> numberOfActors (srv d) = 0" by (rule IH)
    then show ?thesis by simp
  qed
qed

text \<open>
  C5, as the code has it. When the actor count drains to zero (it is zero at look \<open>d\<close>
  and at no look before), the value \<open>Shutdown\<close> returns is \<open>ctx.Err()\<close> as it stands
  once the drain is seen: nil exactly when the context has not expired by then, the
  context's error when it expired during the wait, although the actors have drained.
  Nothing is said here about a context that expires while actors remain for good.
\<close>

theorem C5_Shutdown_returns_ctx_Err_at_drain:
  "numberOfActors (srv d) = 0 \<Longrightarrow> (\<forall>j<d. numberOfActors (srv j) \<noteq> 0) \<Longrightarrow>
   Shutdown srv ctxErr = Some (ctxErr d) \<and>
   (Shutdown srv ctxErr = Some Success \<longleftrightarrow> ctxErr d = Success)"
  using pollActors_first_zero [of srv d 0] by (simp add: Shutdown_def)

text \<open>
  The theorem on a server whose listener and connection are gone at the second look,
  under a context that has not expired by then: \<open>Shutdown\<close> returns nil.
\<close>

theorem C5_Shutdown_witness:
  "numberOfActors (drainsAtSecondLook 1) = 0 \<and> numberOfActors (drainsAtSecondLook 0) = 2 \<and>
   expiresBefore 5 1 = Success \<and>
   Shutdown drainsAtSecondLook (expiresBefore 5) = Some Success"
proof -
  have z: "numberOfActors (drainsAtSecondLook 1) = 0"
    by (simp add: numberOfActors_def drainsAtSecondLook_def)
  have n: "\<forall>j<1. numberOfActors (drainsAtSecondLook j) \<noteq> 0"
    by (simp add: numberOfActors_def drainsAtSecondLook_def)
  have t: "numberOfActors (drainsAtSecondLook 0) = 2"
    by (simp add: numberOfActors_def drainsAtSecondLook_def)
  show ?thesis
    using z t C5_Shutdown_returns_ctx_Err_at_drain [OF z n, of "expiresBefore 5"]
    by (simp add: expiresBefore_def)
qed

text \<open>
  C5 as stated fails: the same server drains at the second look, the context expires
  between the two looks, and \<open>Shutdown\<close> returns the context's error, not nil.
\<close>

theorem C5_drained_yet_error:
  "numberOfActors (drainsAtSecondLook 0) = 2 \<and> numberOfActors (drainsAtSecondLook 1) = 0 \<and>
   expiresBefore 1 0 = Success \<and>
   Shutdown drainsAtSecondLook (expiresBefore 1) = Some (Failure DeadlineExceeded)"
  by (simp add: Shutdown_def pollActors.simps drainsAtSecondLook_def expiresBefore_def
      numberOfActors_def)

section \<open>Argument lists\<close>

text \<open>
  Three of the four variants report no value left once they hold an error.
\<close>

lemma argsList_Len_error: "lerr a \<noteq> None \<Longrightarrow> argsList_Len a = 0"
  by (simp add: argsList_Len_def)

lemma multiArgs_Len_error: "merr m \<noteq> None \<Longrightarrow> multiArgs_Len I m = 0"
  by (auto simp: multiArgs_Len_def)

lemma argsError_Len_zero: "argsError_Len a = 0"
  by (simp add: argsError_Len_def)

text \<open>
  C8. The claim fails on \<open>byteArgs\<close>, whose \<open>Len\<close> does not look at the error. On the
  vector \<open>abc\<close>, \<open>def\<close>, a \<open>Next\<close> into a destination of an unsupported kind takes \<open>abc\<close>,
  records the error and returns false; \<open>Len\<close> then returns 1, and no later \<open>Next\<close>
  will deliver \<open>def\<close>.
\<close>

theorem C8_byteArgs_Len_after_error:
  "byteArgs_Next P \<lparr>args = [''abc'', ''def''], err = None\<rparr> KOther =
     (False, \<lparr>args = [''def''], err = Some UnsupportedOutputType\<rparr>) \<and>
   byteArgs_Len \<lparr>args = [''def''], err = Some UnsupportedOutputType\<rparr> = 1 \<and>
   byteArgs_Next P \<lparr>args = [''def''], err = Some UnsupportedOutputType\<rparr> dst =
     (False, \<lparr>args = [''def''], err = Some UnsupportedOutputType\<rparr>)"
  by (simp add: byteArgs_Next_def byteArgs_next_def byteArgs_Len_def)

text \<open>
  C10. On nil arguments \<open>ParseArgs\<close> returns \<open>ErrNilArgs\<close> exactly when a destination is
  supplied; with no destination the guard is passed and the call of \<open>Close\<close> on the nil
  interface panics. On arguments that are not nil it returns what their \<open>Close\<close>
  returns after the \<open>Next\<close> calls, so the guard is the only place where \<open>ParseArgs\<close>
  itself produces \<open>ErrNilArgs\<close>.
\<close>

theorem C10_ParseArgs_nil:
  "ParseArgs I None dsts =
     (if dsts = [] then (Panicked NilPointerDereference, None) else (Failure ErrNilArgs, None)) \<and>
   fst (ParseArgs I (Some a) dsts) =
     (case fst (Close I (nextEach I a dsts)) of None \<Rightarrow> Success | Some e \<Rightarrow> Failure e)"
  by (auto simp: ParseArgs_def split: prod.splits option.splits)

lemma ParseArgs_nil_byteArgs:
  "ParseArgs (byteArgs_Args P) None [] = (Panicked NilPointerDereference, None) \<and>
   ParseArgs (byteArgs_Args P) None [KString] = (Failure ErrNilArgs, None) \<and>
   ParseArgs (byteArgs_Args P) (Some \<lparr>args = [''hello''], err = None\<rparr>) [KString] =
     (Success, Some \<lparr>args = [], err = None\<rparr>)"
  by (simp add: ParseArgs_def byteArgs_Args_def byteArgs_Next_def byteArgs_next_def byteArgs_Close_def)

end
